theory Spec2Isabelle
  imports Complex_Main "HOL-Library.Multiset" "HOL-Library.Word"
begin

unbundle bit_operations_syntax

section \<open>Data model (highs/cgo.go, highs/model.go, highs/solution.go)\<close>

text \<open>
  Go's \<^verbatim>\<open>int\<close> is modelled by \<^typ>\<open>int\<close>: row and column indices are only compared
  and copied, never added to, so no overflow can occur on them.  A \<^verbatim>\<open>float64\<close> is
  modelled by \<^typ>\<open>real\<close>: coefficients are only copied and compared with \<^verbatim>\<open>0.0\<close>.
  A \<^verbatim>\<open>nil\<close> slice and an empty slice are both the empty list, and a \<^verbatim>\<open>nil\<close>
  \<^verbatim>\<open>error\<close> is \<^term>\<open>None\<close>.
\<close>

record Nonzero =
  Row :: int
  Col :: int
  Val :: real

type_synonym Status = int

definition StatusError :: Status where
  "StatusError = - 1"

definition StatusOK :: Status where
  "StatusOK = 0"

definition StatusWarning :: Status where
  "StatusWarning = 1"

record Error =
  Op :: string
  Status :: Status
  Msg :: string

definition newErrorMsg :: "string \<Rightarrow> string \<Rightarrow> Error" where
  "newErrorMsg op msg = \<lparr>Op = op, Status = StatusError, Msg = msg\<rparr>"

text \<open>
  The three validation failures the specification names, as the error values the
  source builds for them.
\<close>

definition InvalidIndex :: Error where
  "InvalidIndex = newErrorMsg ''nonzerosToCSR'' ''negative row or column index''"

definition NotUpperTriangular :: Error where
  "NotUpperTriangular = newErrorMsg ''nonzerosToCSR'' ''Hessian must be upper triangular''"


type_synonym VariableType = int

type_synonym ModelStatus = int

type_synonym BasisStatus = int

record Model =
  Maximize :: bool
  Offset :: real
  ColCosts :: "real list"
  ColLower :: "real list"
  ColUpper :: "real list"
  RowLower :: "real list"
  RowUpper :: "real list"
  ConstMatrix :: "Nonzero list"
  Hessian :: "Nonzero list"
  VarTypes :: "VariableType list"

record Solution =
  Status :: ModelStatus
  ColValues :: "real list"
  ColDuals :: "real list"
  RowValues :: "real list"
  RowDuals :: "real list"
  ColBasis :: "BasisStatus list"
  RowBasis :: "BasisStatus list"
  Objective :: real

section \<open>The standard library's \<^verbatim>\<open>sort.Slice\<close>\<close>

text \<open>
  \<^verbatim>\<open>nonzerosToCSR\<close> sorts with \<^verbatim>\<open>sort.Slice\<close>, which since Go 1.19 is the
  pattern-defeating quicksort \<^verbatim>\<open>pdqsort_func\<close> of package \<^verbatim>\<open>sort\<close>.  Which of two
  triples with the same key comes last after sorting decides which value survives the
  merge, so the algorithm is embedded as it is written there: a slice is a list,
  \<^verbatim>\<open>data.Less(i, j)\<close> is \<open>lt (xs ! i) (xs ! j)\<close>, \<^verbatim>\<open>data.Swap(i, j)\<close> is
  \<open>swap i j xs\<close>, and every loop is a recursive function over the loop variables.
  Indices are natural numbers: on every path from \<^verbatim>\<open>sort.Slice\<close> the Go indices
  are non-negative.
\<close>

definition swap :: "nat \<Rightarrow> nat \<Rightarrow> 'a list \<Rightarrow> 'a list" where
  "swap i j xs = xs[i := xs ! j, j := xs ! i]"

function insertion_inner :: "('a \<Rightarrow> 'a \<Rightarrow> bool) \<Rightarrow> nat \<Rightarrow> nat \<Rightarrow> 'a list \<Rightarrow> 'a list" where
  "insertion_inner lt a j xs =
     (if j > a \<and> lt (xs ! j) (xs ! (j - 1))
      then insertion_inner lt a (j - 1) (swap j (j - 1) xs)
      else xs)"
  by pat_completeness auto
termination
  by (relation "measure (\<lambda>(lt, a, j, xs). j)") auto

declare insertion_inner.simps [simp del]

function insertion_outer :: "('a \<Rightarrow> 'a \<Rightarrow> bool) \<Rightarrow> nat \<Rightarrow> nat \<Rightarrow> nat \<Rightarrow> 'a list \<Rightarrow> 'a list" where
  "insertion_outer lt a b i xs =
     (if i < b then insertion_outer lt a b (i + 1) (insertion_inner lt a i xs) else xs)"
  by pat_completeness auto
termination
  by (relation "measure (\<lambda>(lt, a, b, i, xs). b - i)") auto

declare insertion_outer.simps [simp del]

definition insertionSort_func :: "('a \<Rightarrow> 'a \<Rightarrow> bool) \<Rightarrow> 'a list \<Rightarrow> nat \<Rightarrow> nat \<Rightarrow> 'a list" where
  "insertionSort_func lt xs a b = insertion_outer lt a b (a + 1) xs"

function siftDown_func :: "('a \<Rightarrow> 'a \<Rightarrow> bool) \<Rightarrow> 'a list \<Rightarrow> nat \<Rightarrow> nat \<Rightarrow> nat \<Rightarrow> 'a list" where
  "siftDown_func lt xs rt hi first =
     (let child = 2 * rt + 1 in
      if child \<ge> hi then xs
      else
        let child = (if child + 1 < hi \<and> lt (xs ! (first + child)) (xs ! (first + child + 1))
                     then child + 1 else child) in
        if \<not> lt (xs ! (first + rt)) (xs ! (first + child)) then xs
        else siftDown_func lt (swap (first + rt) (first + child) xs) child hi first)"
  by pat_completeness auto
termination
  by (relation "measure (\<lambda>(lt, xs, rt, hi, first). hi - rt)") (auto simp: Let_def split: if_splits)

declare siftDown_func.simps [simp del]

fun heap_build :: "('a \<Rightarrow> 'a \<Rightarrow> bool) \<Rightarrow> 'a list \<Rightarrow> nat \<Rightarrow> nat \<Rightarrow> nat \<Rightarrow> 'a list" where
  "heap_build lt xs 0 hi first = siftDown_func lt xs 0 hi first"
| "heap_build lt xs (Suc i) hi first = heap_build lt (siftDown_func lt xs (Suc i) hi first) i hi first"

fun heap_pop :: "('a \<Rightarrow> 'a \<Rightarrow> bool) \<Rightarrow> 'a list \<Rightarrow> nat \<Rightarrow> nat \<Rightarrow> 'a list" where
  "heap_pop lt xs 0 first = xs"
| "heap_pop lt xs (Suc i) first =
     heap_pop lt (siftDown_func lt (swap first (first + i) xs) 0 i first) i first"

definition heapSort_func :: "('a \<Rightarrow> 'a \<Rightarrow> bool) \<Rightarrow> 'a list \<Rightarrow> nat \<Rightarrow> nat \<Rightarrow> 'a list" where
  "heapSort_func lt xs a b =
     (let first = a; hi = b - a;
          xs = heap_build lt xs ((hi - 1) div 2) hi first
      in heap_pop lt xs hi first)"

datatype sortedHint = unknownHint | increasingHint | decreasingHint

definition order2_func :: "('a \<Rightarrow> 'a \<Rightarrow> bool) \<Rightarrow> 'a list \<Rightarrow> nat \<Rightarrow> nat \<Rightarrow> nat \<Rightarrow> nat \<times> nat \<times> nat" where
  "order2_func lt xs a b swaps =
     (if lt (xs ! b) (xs ! a) then (b, a, swaps + 1) else (a, b, swaps))"

definition median_func :: "('a \<Rightarrow> 'a \<Rightarrow> bool) \<Rightarrow> 'a list \<Rightarrow> nat \<Rightarrow> nat \<Rightarrow> nat \<Rightarrow> nat \<Rightarrow> nat \<times> nat" where
  "median_func lt xs a b c swaps =
     (case order2_func lt xs a b swaps of (a, b, swaps) \<Rightarrow>
      case order2_func lt xs b c swaps of (b, c, swaps) \<Rightarrow>
      case order2_func lt xs a b swaps of (a, b, swaps) \<Rightarrow> (b, swaps))"

definition medianAdjacent_func :: "('a \<Rightarrow> 'a \<Rightarrow> bool) \<Rightarrow> 'a list \<Rightarrow> nat \<Rightarrow> nat \<Rightarrow> nat \<times> nat" where
  "medianAdjacent_func lt xs a swaps = median_func lt xs (a - 1) a (a + 1) swaps"

definition choosePivot_func :: "('a \<Rightarrow> 'a \<Rightarrow> bool) \<Rightarrow> 'a list \<Rightarrow> nat \<Rightarrow> nat \<Rightarrow> nat \<times> sortedHint" where
  "choosePivot_func lt xs a b =
     (let l = b - a;
          i = a + l div 4 * 1;
          j = a + l div 4 * 2;
          k = a + l div 4 * 3;
          (j, swaps) =
            (if l \<ge> 8 then
               (if l \<ge> 50 then
                  (case medianAdjacent_func lt xs i 0 of (i, swaps) \<Rightarrow>
                   case medianAdjacent_func lt xs j swaps of (j, swaps) \<Rightarrow>
                   case medianAdjacent_func lt xs k swaps of (k, swaps) \<Rightarrow>
                     median_func lt xs i j k swaps)
                else median_func lt xs i j k 0)
             else (j, 0))
      in if swaps = 0 then (j, increasingHint)
         else if swaps = 4 * 3 then (j, decreasingHint)
         else (j, unknownHint))"

function reverse_loop :: "nat \<Rightarrow> nat \<Rightarrow> 'a list \<Rightarrow> 'a list" where
  "reverse_loop i j xs = (if i < j then reverse_loop (i + 1) (j - 1) (swap i j xs) else xs)"
  by pat_completeness auto
termination
  by (relation "measure (\<lambda>(i, j, xs). j - i)") auto

declare reverse_loop.simps [simp del]

definition reverseRange_func :: "'a list \<Rightarrow> nat \<Rightarrow> nat \<Rightarrow> 'a list" where
  "reverseRange_func xs a b = reverse_loop a (b - 1) xs"

function scan_up :: "('a \<Rightarrow> bool) \<Rightarrow> 'a list \<Rightarrow> nat \<Rightarrow> nat \<Rightarrow> nat" where
  "scan_up P xs i j = (if i \<le> j \<and> P (xs ! i) then scan_up P xs (i + 1) j else i)"
  by pat_completeness auto
termination
  by (relation "measure (\<lambda>(P, xs, i, j). Suc j - i)") auto

declare scan_up.simps [simp del]

function scan_down :: "('a \<Rightarrow> bool) \<Rightarrow> 'a list \<Rightarrow> nat \<Rightarrow> nat \<Rightarrow> nat" where
  "scan_down P xs i j = (if i \<le> j \<and> P (xs ! j) \<and> 0 < j then scan_down P xs i (j - 1) else j)"
  by pat_completeness auto
termination
  by (relation "measure (\<lambda>(P, xs, i, j). j)") auto

declare scan_down.simps [simp del]

lemma scan_up_ge: "i \<le> scan_up P xs i j"
  by (induction P xs i j rule: scan_up.induct) (subst scan_up.simps, auto)

lemma scan_up_le: "i \<le> Suc j \<Longrightarrow> scan_up P xs i j \<le> Suc j"
  by (induction P xs i j rule: scan_up.induct) (subst scan_up.simps, auto)

lemma scan_down_le: "scan_down P xs i j \<le> j"
  by (induction P xs i j rule: scan_down.induct) (subst scan_down.simps, auto)

lemma scan_down_ge: "0 < i \<Longrightarrow> min j (i - 1) \<le> scan_down P xs i j"
  by (induction P xs i j rule: scan_down.induct) (subst scan_down.simps, auto)

function partition_loop :: "('a \<Rightarrow> 'a \<Rightarrow> bool) \<Rightarrow> nat \<Rightarrow> nat \<Rightarrow> nat \<Rightarrow> 'a list \<Rightarrow> 'a list \<times> nat" where
  "partition_loop lt a i j xs =
     (let i = scan_up (\<lambda>x. lt x (xs ! a)) xs i j;
          j = scan_down (\<lambda>x. \<not> lt x (xs ! a)) xs i j
      in if i > j then (xs, j)
         else partition_loop lt a (i + 1) (j - 1) (swap i j xs))"
  by pat_completeness auto
termination
proof (relation "measure (\<lambda>(lt, a, i, j, xs). Suc j - i)", goal_cases)
  case 1
  show ?case by simp
next
  case (2 lt a i j xs i' j')
  have "i \<le> i'" unfolding 2(1) by (rule scan_up_ge)
  moreover have "j' \<le> j" unfolding 2(2) by (rule scan_down_le)
  ultimately show ?case using 2(3) by simp
qed

declare partition_loop.simps [simp del]

definition partition_func :: "('a \<Rightarrow> 'a \<Rightarrow> bool) \<Rightarrow> 'a list \<Rightarrow> nat \<Rightarrow> nat \<Rightarrow> nat \<Rightarrow> 'a list \<times> nat \<times> bool" where
  "partition_func lt xs a b pivot =
     (let xs = swap a pivot xs;
          i = a + 1;
          j = b - 1;
          i = scan_up (\<lambda>x. lt x (xs ! a)) xs i j;
          j = scan_down (\<lambda>x. \<not> lt x (xs ! a)) xs i j
      in if i > j then (swap j a xs, j, True)
         else
           (case partition_loop lt a (i + 1) (j - 1) (swap i j xs) of
              (xs, j) \<Rightarrow> (swap j a xs, j, False)))"

function partitionEqual_loop :: "('a \<Rightarrow> 'a \<Rightarrow> bool) \<Rightarrow> nat \<Rightarrow> nat \<Rightarrow> nat \<Rightarrow> 'a list \<Rightarrow> 'a list \<times> nat" where
  "partitionEqual_loop lt a i j xs =
     (let i = scan_up (\<lambda>x. \<not> lt (xs ! a) x) xs i j;
          j = scan_down (\<lambda>x. lt (xs ! a) x) xs i j
      in if i > j then (xs, i)
         else partitionEqual_loop lt a (i + 1) (j - 1) (swap i j xs))"
  by pat_completeness auto
termination
proof (relation "measure (\<lambda>(lt, a, i, j, xs). Suc j - i)", goal_cases)
  case 1
  show ?case by simp
next
  case (2 lt a i j xs i' j')
  have "i \<le> i'" unfolding 2(1) by (rule scan_up_ge)
  moreover have "j' \<le> j" unfolding 2(2) by (rule scan_down_le)
  ultimately show ?case using 2(3) by simp
qed

declare partitionEqual_loop.simps [simp del]

definition partitionEqual_func :: "('a \<Rightarrow> 'a \<Rightarrow> bool) \<Rightarrow> 'a list \<Rightarrow> nat \<Rightarrow> nat \<Rightarrow> nat \<Rightarrow> 'a list \<times> nat" where
  "partitionEqual_func lt xs a b pivot =
     partitionEqual_loop lt a (a + 1) (b - 1) (swap a pivot xs)"

function advance :: "('a \<Rightarrow> 'a \<Rightarrow> bool) \<Rightarrow> 'a list \<Rightarrow> nat \<Rightarrow> nat \<Rightarrow> nat" where
  "advance lt xs i b = (if i < b \<and> \<not> lt (xs ! i) (xs ! (i - 1)) then advance lt xs (i + 1) b else i)"
  by pat_completeness auto
termination
  by (relation "measure (\<lambda>(lt, xs, i, b). b - i)") auto

declare advance.simps [simp del]

function shift_left :: "('a \<Rightarrow> 'a \<Rightarrow> bool) \<Rightarrow> nat \<Rightarrow> 'a list \<Rightarrow> 'a list" where
  "shift_left lt j xs =
     (if j \<ge> 1 then
        (if \<not> lt (xs ! j) (xs ! (j - 1)) then xs
         else shift_left lt (j - 1) (swap j (j - 1) xs))
      else xs)"
  by pat_completeness auto
termination
  by (relation "measure (\<lambda>(lt, j, xs). j)") auto

declare shift_left.simps [simp del]

function shift_right :: "('a \<Rightarrow> 'a \<Rightarrow> bool) \<Rightarrow> nat \<Rightarrow> nat \<Rightarrow> 'a list \<Rightarrow> 'a list" where
  "shift_right lt j b xs =
     (if j < b then
        (if \<not> lt (xs ! j) (xs ! (j - 1)) then xs
         else shift_right lt (j + 1) b (swap j (j - 1) xs))
      else xs)"
  by pat_completeness auto
termination
  by (relation "measure (\<lambda>(lt, j, b, xs). b - j)") auto

declare shift_right.simps [simp del]

fun partial_loop :: "('a \<Rightarrow> 'a \<Rightarrow> bool) \<Rightarrow> nat \<Rightarrow> nat \<Rightarrow> nat \<Rightarrow> nat \<Rightarrow> 'a list \<Rightarrow> 'a list \<times> bool" where
  "partial_loop lt a b 0 i xs = (xs, False)"
| "partial_loop lt a b (Suc steps) i xs =
     (let i = advance lt xs i b in
      if i = b then (xs, True)
      else if b - a < 50 then (xs, False)
      else
        let xs = swap i (i - 1) xs;
            xs = (if i - a \<ge> 2 then shift_left lt (i - 1) xs else xs);
            xs = (if b - i \<ge> 2 then shift_right lt (i + 1) b xs else xs)
        in partial_loop lt a b steps i xs)"

definition partialInsertionSort_func :: "('a \<Rightarrow> 'a \<Rightarrow> bool) \<Rightarrow> 'a list \<Rightarrow> nat \<Rightarrow> nat \<Rightarrow> 'a list \<times> bool" where
  "partialInsertionSort_func lt xs a b = partial_loop lt a b 5 (a + 1) xs"

fun bits_Len :: "nat \<Rightarrow> nat" where
  "bits_Len n = (if n = 0 then 0 else Suc (bits_Len (n div 2)))"

definition xorshift_Next :: "64 word \<Rightarrow> 64 word" where
  "xorshift_Next r =
     (let r = r XOR push_bit 13 r;
          r = r XOR drop_bit 7 r;
          r = r XOR push_bit 17 r
      in r)"

definition nextPowerOfTwo :: "nat \<Rightarrow> 64 word" where
  "nextPowerOfTwo len = push_bit (bits_Len len) 1"

function breakPatterns_loop :: "nat \<Rightarrow> nat \<Rightarrow> 64 word \<Rightarrow> nat \<Rightarrow> nat \<Rightarrow> 64 word \<Rightarrow> 'a list \<Rightarrow> 'a list" where
  "breakPatterns_loop a len modulus idx i random xs =
     (if i < 3 then
        let random = xorshift_Next random;
            other = unat (random AND (modulus - 1));
            other = (if other \<ge> len then other - len else other)
        in breakPatterns_loop a len modulus idx (i + 1) random (swap (idx - 1 + i) (a + other) xs)
      else xs)"
  by pat_completeness auto
termination
  by (relation "measure (\<lambda>(a, len, modulus, idx, i, random, xs). 3 - i)") auto

declare breakPatterns_loop.simps [simp del]

definition breakPatterns_func :: "'a list \<Rightarrow> nat \<Rightarrow> nat \<Rightarrow> 'a list" where
  "breakPatterns_func xs a b =
     (let len = b - a in
      if len \<ge> 8 then
        breakPatterns_loop a len (nextPowerOfTwo len) (a + (len div 4) * 2 - 1) 0
          (word_of_nat len) xs
      else xs)"

lemma partition_loop_bounds:
  "partition_loop lt a i j xs = (xs', j') \<Longrightarrow> j' \<le> j \<and> (0 < i \<longrightarrow> min j (i - 1) \<le> j')"
proof (induction lt a i j xs rule: partition_loop.induct)
  case (1 lt a i j xs)
  define i1 where "i1 = scan_up (\<lambda>x. lt x (xs ! a)) xs i j"
  define j1 where "j1 = scan_down (\<lambda>x. \<not> lt x (xs ! a)) xs i1 j"
  have i1: "i \<le> i1"
    unfolding i1_def by (rule scan_up_ge)
  have j1: "j1 \<le> j" "0 < i1 \<Longrightarrow> min j (i1 - 1) \<le> j1"
    unfolding j1_def by (rule scan_down_le, rule scan_down_ge)
  show ?case
  proof (cases "i1 > j1")
    case True
    with 1(2) have "j' = j1"
      unfolding i1_def j1_def by (subst (asm) partition_loop.simps) (auto simp: Let_def)
    with i1 j1 show ?thesis by auto
  next
    case False
    with 1(2) have eq: "partition_loop lt a (i1 + 1) (j1 - 1) (swap i1 j1 xs) = (xs', j')"
      unfolding i1_def j1_def by (subst (asm) partition_loop.simps) (auto simp: Let_def)
    from 1(1) [OF i1_def j1_def False eq]
    have "j' \<le> j1 - 1 \<and> (0 < i1 + 1 \<longrightarrow> min (j1 - 1) (i1 + 1 - 1) \<le> j')" .
    with i1 j1 False show ?thesis by auto
  qed
qed

lemma partition_func_bounds:
  assumes "partition_func lt xs a b pivot = (xs', mid, ap)" and "a < b"
  shows "a \<le> mid \<and> mid < b"
proof -
  define ys where "ys = swap a pivot xs"
  define i1 where "i1 = scan_up (\<lambda>x. lt x (ys ! a)) ys (a + 1) (b - 1)"
  define j1 where "j1 = scan_down (\<lambda>x. \<not> lt x (ys ! a)) ys i1 (b - 1)"
  have i1: "a + 1 \<le> i1"
    unfolding i1_def by (rule scan_up_ge)
  have j1: "j1 \<le> b - 1" "min (b - 1) (i1 - 1) \<le> j1"
    using scan_down_le [of "\<lambda>x. \<not> lt x (ys ! a)" ys i1 "b - 1"]
      scan_down_ge [of i1 "b - 1" "\<lambda>x. \<not> lt x (ys ! a)" ys] i1
    by (auto simp: j1_def)
  show ?thesis
  proof (cases "i1 > j1")
    case True
    with assms(1) have "mid = j1"
      unfolding partition_func_def Let_def i1_def j1_def ys_def by simp
    with i1 j1 assms(2) show ?thesis by auto
  next
    case False
    obtain zs j' where pl: "partition_loop lt a (i1 + 1) (j1 - 1) (swap i1 j1 ys) = (zs, j')"
      by (cases "partition_loop lt a (i1 + 1) (j1 - 1) (swap i1 j1 ys)") auto
    with assms(1) False have "mid = j'"
      unfolding partition_func_def Let_def i1_def j1_def ys_def by simp
    moreover from partition_loop_bounds [OF pl]
    have "j' \<le> j1 - 1 \<and> (0 < i1 + 1 \<longrightarrow> min (j1 - 1) (i1 + 1 - 1) \<le> j')" .
    ultimately show ?thesis using i1 j1 False assms(2) by auto
  qed
qed

lemma partitionEqual_loop_bounds:
  "partitionEqual_loop lt a i j xs = (xs', m) \<Longrightarrow> i \<le> m"
proof (induction lt a i j xs rule: partitionEqual_loop.induct)
  case (1 lt a i j xs)
  define i1 where "i1 = scan_up (\<lambda>x. \<not> lt (xs ! a) x) xs i j"
  define j1 where "j1 = scan_down (\<lambda>x. lt (xs ! a) x) xs i1 j"
  have i1: "i \<le> i1" unfolding i1_def by (rule scan_up_ge)
  show ?case
  proof (cases "i1 > j1")
    case True
    with 1(2) have "m = i1"
      unfolding i1_def j1_def by (subst (asm) partitionEqual_loop.simps) (auto simp: Let_def)
    with i1 show ?thesis by simp
  next
    case False
    with 1(2) have eq: "partitionEqual_loop lt a (i1 + 1) (j1 - 1) (swap i1 j1 xs) = (xs', m)"
      unfolding i1_def j1_def by (subst (asm) partitionEqual_loop.simps) (auto simp: Let_def)
    from 1(1) [OF i1_def j1_def False eq] i1 show ?thesis by simp
  qed
qed

lemma partitionEqual_func_bounds:
  assumes "partitionEqual_func lt xs a b pivot = (xs', mid)"
  shows "a < mid"
  using partitionEqual_loop_bounds [OF assms [unfolded partitionEqual_func_def]] by simp

lemma pdqsort_term_equal:
  assumes "(xs', m) = partitionEqual_func lt xs a b p" and "x = b - a" and "\<not> x \<le> 12"
  shows "b - m < b - a"
proof -
  have "a < m" using assms(1) by (intro partitionEqual_func_bounds [OF sym])
  with assms(2,3) show ?thesis by simp
qed

lemma pdqsort_term_left:
  assumes "(xs', y) = partition_func lt xs a b p" and "(m, ap) = y"
    and "x = b - a" and "\<not> x \<le> 12"
  shows "m - a < b - a"
proof -
  have "partition_func lt xs a b p = (xs', m, ap)" using assms(1,2) by simp
  moreover have "a < b" using assms(3,4) by simp
  ultimately have "a \<le> m \<and> m < b" by (rule partition_func_bounds)
  then show ?thesis by auto
qed

lemma pdqsort_term_right:
  assumes "(xs', y) = partition_func lt xs a b p" and "(m, ap) = y"
    and "x = b - a" and "\<not> x \<le> 12"
  shows "b - (m + 1) < b - a"
proof -
  have "partition_func lt xs a b p = (xs', m, ap)" using assms(1,2) by simp
  moreover have "a < b" using assms(3,4) by simp
  ultimately have "a \<le> m \<and> m < b" by (rule partition_func_bounds)
  then show ?thesis by auto
qed

function pdqsort_func :: "('a \<Rightarrow> 'a \<Rightarrow> bool) \<Rightarrow> 'a list \<Rightarrow> nat \<Rightarrow> nat \<Rightarrow> nat \<Rightarrow> bool \<Rightarrow> bool \<Rightarrow> 'a list" where
  "pdqsort_func lt xs a b limit wasBalanced wasPartitioned =
     (let len = b - a in
      if len \<le> 12 then insertionSort_func lt xs a b
      else if limit = 0 then heapSort_func lt xs a b
      else
        case (if \<not> wasBalanced then (breakPatterns_func xs a b, limit - 1) else (xs, limit)) of
          (xs, limit) \<Rightarrow>
        case choosePivot_func lt xs a b of (pivot, hint) \<Rightarrow>
        case (if hint = decreasingHint
              then (reverseRange_func xs a b, (b - 1) - (pivot - a), increasingHint)
              else (xs, pivot, hint)) of (xs, pivot, hint) \<Rightarrow>
        case (if wasBalanced \<and> wasPartitioned \<and> hint = increasingHint
              then partialInsertionSort_func lt xs a b else (xs, False)) of (xs, isSorted) \<Rightarrow>
        if isSorted then xs
        else if a > 0 \<and> \<not> lt (xs ! (a - 1)) (xs ! pivot) then
          (case partitionEqual_func lt xs a b pivot of
             (xs, mid) \<Rightarrow> pdqsort_func lt xs mid b limit wasBalanced wasPartitioned)
        else
          (case partition_func lt xs a b pivot of
             (xs, mid, alreadyPartitioned) \<Rightarrow>
               let leftLen = mid - a; rightLen = b - mid; balanceThreshold = len div 8 in
               if leftLen < rightLen then
                 pdqsort_func lt (pdqsort_func lt xs a mid limit True True) (mid + 1) b limit
                   (leftLen \<ge> balanceThreshold) alreadyPartitioned
               else
                 pdqsort_func lt (pdqsort_func lt xs (mid + 1) b limit True True) a mid limit
                   (rightLen \<ge> balanceThreshold) alreadyPartitioned))"
  by pat_completeness auto
termination
  apply (relation "measure (\<lambda>(lt, xs, a, b, limit, wb, wp). b - a)")
       apply simp
      apply (simp_all (no_asm) only: in_measure prod.case)
      apply (erule pdqsort_term_equal pdqsort_term_left pdqsort_term_right, assumption+)+
  done

declare pdqsort_func.simps [simp del]

definition sort_Slice :: "('a \<Rightarrow> 'a \<Rightarrow> bool) \<Rightarrow> 'a list \<Rightarrow> 'a list" where
  "sort_Slice lt xs = pdqsort_func lt xs 0 (length xs) (bits_Len (length xs)) True True"

section \<open>highs/utils.go\<close>

text \<open>The comparison closure handed to \<^verbatim>\<open>sort.Slice\<close>: by row, then by column.\<close>

definition less_nz :: "Nonzero \<Rightarrow> Nonzero \<Rightarrow> bool" where
  "less_nz x y = (if Row x \<noteq> Row y then Row x < Row y else Col x < Col y)"

text \<open>
  The validation and merge loop over the sorted slice.  An early \<^verbatim>\<open>return\<close> with an
  error is \<^term>\<open>Inl\<close>; \<open>filtered\<close> is the slice built so far.
\<close>

fun filter_loop :: "bool \<Rightarrow> Nonzero list \<Rightarrow> Nonzero list \<Rightarrow> Error + Nonzero list" where
  "filter_loop triangular [] filtered = Inr filtered"
| "filter_loop triangular (n # ns) filtered =
     (if Row n < 0 \<or> Col n < 0 then Inl InvalidIndex
      else if triangular \<and> Row n > Col n then Inl NotUpperTriangular
      else if length filtered > 0
              \<and> Row (filtered ! (length filtered - 1)) = Row n
              \<and> Col (filtered ! (length filtered - 1)) = Col n
      then filter_loop triangular ns
             (filtered[length filtered - 1 := (filtered ! (length filtered - 1))\<lparr>Val := Val n\<rparr>])
      else filter_loop triangular ns (filtered @ [n]))"

text \<open>
  The loop that builds the three arrays; \<open>i\<close> is the position in \<open>filtered\<close>,
  \<open>index\<close> and \<open>vals\<close> were allocated with the length of \<open>filtered\<close>.
\<close>

fun csr_loop ::
  "Nonzero list \<Rightarrow> nat \<Rightarrow> int \<Rightarrow> int list \<Rightarrow> int list \<Rightarrow> real list \<Rightarrow>
     int list \<times> int list \<times> real list" where
  "csr_loop [] i prevRow start index vals = (start, index, vals)"
| "csr_loop (n # ns) i prevRow start index vals =
     (if Row n > prevRow
      then csr_loop ns (i + 1) (Row n) (start @ [int i]) (index[i := Col n]) (vals[i := Val n])
      else csr_loop ns (i + 1) prevRow start (index[i := Col n]) (vals[i := Val n]))"

definition nonzerosToCSR ::
  "Nonzero list \<Rightarrow> bool \<Rightarrow> int list \<times> int list \<times> real list \<times> Error option" where
  "nonzerosToCSR nz triangular =
     (if length nz = 0 then ([], [], [], None)
      else
        case filter_loop triangular (sort_Slice less_nz nz) [] of
          Inl err \<Rightarrow> ([], [], [], Some err)
        | Inr filtered \<Rightarrow>
            (case csr_loop filtered 0 (- 1) []
                    (replicate (length filtered) 0) (replicate (length filtered) 0) of
               (start, index, vals) \<Rightarrow> (start, index, vals, None)))"





fun maxRowCol_loop :: "Nonzero list \<Rightarrow> int \<Rightarrow> int \<Rightarrow> int \<times> int" where
  "maxRowCol_loop [] maxRow maxCol = (maxRow, maxCol)"
| "maxRowCol_loop (n # ns) maxRow maxCol =
     maxRowCol_loop ns (if Row n > maxRow then Row n else maxRow)
       (if Col n > maxCol then Col n else maxCol)"

definition maxRowCol :: "Nonzero list \<Rightarrow> int \<times> int" where
  "maxRowCol nz = maxRowCol_loop nz (- 1) (- 1)"

section \<open>highs/model.go and highs/solution.go\<close>

fun addDenseRow_loop :: "int \<Rightarrow> nat \<Rightarrow> real list \<Rightarrow> Nonzero list \<Rightarrow> Nonzero list" where
  "addDenseRow_loop row col [] cm = cm"
| "addDenseRow_loop row col (val # coeffs) cm =
     addDenseRow_loop row (col + 1) coeffs
       (if val \<noteq> 0 then cm @ [\<lparr>Row = row, Col = int col, Val = val\<rparr>] else cm)"

definition AddDenseRow :: "Model \<Rightarrow> real \<Rightarrow> real list \<Rightarrow> real \<Rightarrow> Model" where
  "AddDenseRow m lower coeffs upper =
     (let row = int (length (RowLower m));
          m = m\<lparr>RowLower := RowLower m @ [lower]\<rparr>;
          m = m\<lparr>RowUpper := RowUpper m @ [upper]\<rparr>
      in m\<lparr>ConstMatrix := addDenseRow_loop row 0 coeffs (ConstMatrix m)\<rparr>)"

definition Value :: "Solution \<Rightarrow> int \<Rightarrow> real" where
  "Value s index =
     (if index < 0 \<or> index \<ge> int (length (ColValues s)) then 0
      else ColValues s ! nat index)"

section \<open>Properties of the helpers\<close>



lemma maxRowCol_loop_eq:
  "maxRowCol_loop nz r c = (Max (insert r (Row ` set nz)), Max (insert c (Col ` set nz)))"
proof (induction nz arbitrary: r c)
  case Nil
  show ?case by simp
next
  case (Cons n ns)
  have r: "Max (insert (if r < Row n then Row n else r) (Row ` set ns))
             = Max (insert r (insert (Row n) (Row ` set ns)))"
    by (cases "ns = []") (auto simp: max_def)
  have c: "Max (insert (if c < Col n then Col n else c) (Col ` set ns))
             = Max (insert c (insert (Col n) (Col ` set ns)))"
    by (cases "ns = []") (auto simp: max_def)
  show ?case by (simp add: Cons.IH r c)
qed

lemma addDenseRow_loop_eq:
  "addDenseRow_loop row col coeffs cm =
     cm @ map (\<lambda>i. \<lparr>Row = row, Col = int (col + i), Val = coeffs ! i\<rparr>)
            (filter (\<lambda>i. coeffs ! i \<noteq> 0) [0..<length coeffs])"
proof (induction coeffs arbitrary: col cm)
  case Nil
  show ?case by simp
next
  case (Cons v vs)
  have upt: "[0..<length (v # vs)] = 0 # map Suc [0..<length vs]"
    by (simp add: upt_conv_Cons map_Suc_upt del: upt_Suc)
  show ?case
    unfolding upt by (simp add: Cons.IH filter_map comp_def)
qed

section \<open>Claims about the helpers and the model builder\<close>

text \<open>
  Claim C4.  The end-to-end scenario of the specification: the five triples
  (0,1,1.0), (1,0,1.0), (1,1,2.0), (2,0,3.0), (2,1,2.0), converted without the
  upper-triangular check, give \<open>rowStart = [0,1,3]\<close>, \<open>colIndex = [1,0,1,0,1]\<close>,
  \<open>values = [1,1,2,3,2]\<close> and no error.
\<close>

theorem nonzerosToCSR_end_to_end:
  "nonzerosToCSR
     [\<lparr>Row = 0, Col = 1, Val = 1\<rparr>, \<lparr>Row = 1, Col = 0, Val = 1\<rparr>, \<lparr>Row = 1, Col = 1, Val = 2\<rparr>,
      \<lparr>Row = 2, Col = 0, Val = 3\<rparr>, \<lparr>Row = 2, Col = 1, Val = 2\<rparr>] False
   = ([0, 1, 3], [1, 0, 1, 0, 1], [1, 1, 2, 3, 2], None)"
  by code_simp

text \<open>
  Claim C6.  On the empty sequence, with either value of the flag, the conversion
  succeeds and returns three empty sequences.
\<close>

theorem nonzerosToCSR_empty:
  "nonzerosToCSR [] triangular = ([], [], [], None)"
  by (simp add: nonzerosToCSR_def)




text \<open>
  Claim C8, as amended.  For every triple sequence, \<^verbatim>\<open>maxRowCol\<close> returns the larger
  of \<open>-1\<close> and the greatest row index, and the larger of \<open>-1\<close> and the greatest column
  index; it validates nothing, always returns, and gives \<open>(-1, -1)\<close> on the empty
  sequence.  The claim as written fails on a sequence whose indices are all below
  \<open>-1\<close>: the scan starts from the sentinel, so the sentinel is returned and not the
  greatest index that occurs.
\<close>

theorem maxRowCol_eq:
  "maxRowCol nz = (Max (insert (- 1) (Row ` set nz)), Max (insert (- 1) (Col ` set nz)))
     \<and> maxRowCol [] = (- 1, - 1)"
  by (simp add: maxRowCol_def maxRowCol_loop_eq)

theorem maxRowCol_below_sentinel:
  "maxRowCol [\<lparr>Row = - 2, Col = - 3, Val = 1\<rparr>] = (- 1, - 1)
     \<and> Max (Row ` set [\<lparr>Row = - 2, Col = - 3, Val = 1\<rparr>]) = - 2
     \<and> Max (Col ` set [\<lparr>Row = - 2, Col = - 3, Val = 1\<rparr>]) = - 3"
  by (simp add: maxRowCol_def)

text \<open>
  Claim C9.  \<^verbatim>\<open>AddDenseRow(lower, coeffs, upper)\<close> appends \<open>lower\<close> to \<open>RowLower\<close> and
  \<open>upper\<close> to \<open>RowUpper\<close>; it appends to \<open>ConstMatrix\<close>, in order of position, one
  triple \<open>(r, i, coeffs[i])\<close> for each position \<open>i\<close> with a non-zero coefficient, where
  \<open>r\<close> is the length \<open>RowLower\<close> had before the call, and nothing for a zero
  coefficient; every other field of the model is unchanged.
\<close>

theorem AddDenseRow_effect:
  "RowLower (AddDenseRow m lower coeffs upper) = RowLower m @ [lower]
     \<and> RowUpper (AddDenseRow m lower coeffs upper) = RowUpper m @ [upper]
     \<and> ConstMatrix (AddDenseRow m lower coeffs upper) =
         ConstMatrix m @
           map (\<lambda>i. \<lparr>Row = int (length (RowLower m)), Col = int i, Val = coeffs ! i\<rparr>)
             (filter (\<lambda>i. coeffs ! i \<noteq> 0) [0..<length coeffs])
     \<and> Maximize (AddDenseRow m lower coeffs upper) = Maximize m
     \<and> Offset (AddDenseRow m lower coeffs upper) = Offset m
     \<and> ColCosts (AddDenseRow m lower coeffs upper) = ColCosts m
     \<and> ColLower (AddDenseRow m lower coeffs upper) = ColLower m
     \<and> ColUpper (AddDenseRow m lower coeffs upper) = ColUpper m
     \<and> Hessian (AddDenseRow m lower coeffs upper) = Hessian m
     \<and> VarTypes (AddDenseRow m lower coeffs upper) = VarTypes m"
  by (simp add: AddDenseRow_def Let_def addDenseRow_loop_eq)

text \<open>
  Claim C10.  \<^verbatim>\<open>Value(index)\<close> returns \<open>ColValues[index]\<close> when the index is within
  the slice and \<open>0\<close> for every other index, negative or too large.
\<close>

theorem Value_in_and_out_of_range:
  "(0 \<le> index \<and> index < int (length (ColValues s)) \<longrightarrow> Value s index = ColValues s ! nat index)
     \<and> (index < 0 \<or> int (length (ColValues s)) \<le> index \<longrightarrow> Value s index = 0)"
  by (auto simp: Value_def)

theorem Value_in_and_out_of_range_witness:
  "Value \<lparr>Status = 7, ColValues = [4, 5], ColDuals = [], RowValues = [], RowDuals = [],
       ColBasis = [], RowBasis = [], Objective = 9\<rparr> 1 = 5
     \<and> Value \<lparr>Status = 7, ColValues = [4, 5], ColDuals = [], RowValues = [], RowDuals = [],
       ColBasis = [], RowBasis = [], Objective = 9\<rparr> 2 = 0
     \<and> Value \<lparr>Status = 7, ColValues = [4, 5], ColDuals = [], RowValues = [], RowDuals = [],
       ColBasis = [], RowBasis = [], Objective = 9\<rparr> (- 1) = 0"
  using
    Value_in_and_out_of_range [of 1 "\<lparr>Status = 7, ColValues = [4, 5], ColDuals = [],
       RowValues = [], RowDuals = [], ColBasis = [], RowBasis = [], Objective = 9\<rparr>"]
    Value_in_and_out_of_range [of 2 "\<lparr>Status = 7, ColValues = [4, 5], ColDuals = [],
       RowValues = [], RowDuals = [], ColBasis = [], RowBasis = [], Objective = 9\<rparr>"]
    Value_in_and_out_of_range [of "- 1" "\<lparr>Status = 7, ColValues = [4, 5], ColDuals = [],
       RowValues = [], RowDuals = [], ColBasis = [], RowBasis = [], Objective = 9\<rparr>"]
  by simp

section \<open>Claims about duplicates and input order\<close>

text \<open>
  Claim C1.  The claim is that duplicates are merged by keeping the value of the last
  duplicate in input order, for every input.  The source sorts with \<^verbatim>\<open>sort.Slice\<close>,
  which is not stable.  On the thirteen triples below, all in row 0, the two triples
  for column 1 are supplied as \<open>1.0\<close> then \<open>2.0\<close>; the partitioning step moves the
  first of them behind the second, and the merged value at \<open>(0,1)\<close> is \<open>1.0\<close>.
\<close>

theorem nonzerosToCSR_keeps_earlier_duplicate:
  "nonzerosToCSR
     [\<lparr>Row = 0, Col = 1, Val = 1\<rparr>, \<lparr>Row = 0, Col = 1, Val = 2\<rparr>, \<lparr>Row = 0, Col = 0, Val = 5\<rparr>,
      \<lparr>Row = 0, Col = 2, Val = 5\<rparr>, \<lparr>Row = 0, Col = 3, Val = 5\<rparr>, \<lparr>Row = 0, Col = 4, Val = 5\<rparr>,
      \<lparr>Row = 0, Col = 10, Val = 5\<rparr>, \<lparr>Row = 0, Col = 5, Val = 5\<rparr>, \<lparr>Row = 0, Col = 6, Val = 5\<rparr>,
      \<lparr>Row = 0, Col = 7, Val = 5\<rparr>, \<lparr>Row = 0, Col = 8, Val = 5\<rparr>, \<lparr>Row = 0, Col = 9, Val = 5\<rparr>,
      \<lparr>Row = 0, Col = 11, Val = 5\<rparr>] False
   = ([0], [0, 1, 2, 3, 4, 5, 6, 7, 8, 9, 10, 11], [5, 1, 5, 5, 5, 5, 5, 5, 5, 5, 5, 5], None)"
  by code_simp

text \<open>
  The instance the claim singles out does hold: two triples are sorted by insertion,
  which keeps their order.
\<close>

lemma nonzerosToCSR_overwrite_two:
  "nonzerosToCSR [\<lparr>Row = 0, Col = 0, Val = 1\<rparr>, \<lparr>Row = 0, Col = 0, Val = 2\<rparr>] False
     = ([0], [0], [2], None)"
  by code_simp

end
